theory Spec2Isabelle
  imports
    Complex_Main
    "HOL-Library.List_Lexorder"
    "HOL-Library.Char_ord"
    "HOL-Library.Product_Lexorder"
begin

section \<open>Data model\<close>

text \<open>
  The program is \<^verbatim>\<open>gtfsrtk/main.py\<close>. Its tables are Pandas data frames; a frame is
  modelled by the list of its rows, in frame order, each row a record of the frame's
  columns. A null cell (NaN) is \<open>None\<close>. Delay values are float64 cells in Pandas (the
  column holds NaN); they are modelled by real numbers, so every statement below is
  about the arithmetic the code asks for, not about binary rounding error.
  Identifiers are strings, compared as Python compares \<^verbatim>\<open>str\<close>: lexicographically by
  code point.
\<close>

text \<open>The exceptions of the modelled code; \<open>ValueError\<close> carries its message.\<close>

datatype py_error =
  TypeError | KeyError string | ValueError string | AttributeError | ZeroDivisionError

text \<open>
  A row of a delay data frame, with the columns \<^verbatim>\<open>extract_delays\<close> gives it
  (\<^verbatim>\<open>main.py\<close>, lines 126--128).
\<close>

record delay_row =
  route_id :: string
  trip_id :: string
  stop_sequence :: int
  stop_id :: string
  arrival_delay :: "real option"
  departure_delay :: "real option"

text \<open>
  A data frame as far as its column index matters: \<^verbatim>\<open>pd.DataFrame([], index=range(0))\<close>
  has no columns at all, and deleting or joining on a column that is not there raises
  \<^verbatim>\<open>KeyError\<close>.
\<close>

datatype 'r frame = Frame (columns: "string list") (rows: "'r list")

section \<open>combine\_delays\<close>

text \<open>\<^verbatim>\<open>cols = ['route_id', 'trip_id', 'stop_sequence']\<close>: the tuple \<^verbatim>\<open>row[cols].values\<close>.\<close>

definition cols :: "delay_row \<Rightarrow> string \<times> string \<times> int" where
  "cols row = (route_id row, trip_id row, stop_sequence row)"

text \<open>
  \<^verbatim>\<open>pd.concat(delays_list)\<close>: raises \<^verbatim>\<open>ValueError\<close> on an empty list, and otherwise
  stacks the frames in list order.
\<close>

definition pd_concat :: "'r list list \<Rightarrow> py_error + 'r list" where
  "pd_concat frames =
     (if frames = [] then Inl (ValueError ''No objects to concatenate'')
      else Inr (concat frames))"

text \<open>
  \<^verbatim>\<open>f.drop_duplicates()\<close>: a row equal in every column to an earlier row is dropped;
  the first occurrence stays where it is.
\<close>

primrec drop_duplicates_from :: "'r list \<Rightarrow> 'r list \<Rightarrow> 'r list" where
  "drop_duplicates_from seen [] = []"
| "drop_duplicates_from seen (x # xs) =
     (if x \<in> set seen then drop_duplicates_from seen xs
      else x # drop_duplicates_from (x # seen) xs)"

definition drop_duplicates :: "'r list \<Rightarrow> 'r list" where
  "drop_duplicates xs = drop_duplicates_from [] xs"

text \<open>\<^verbatim>\<open>f.dropna(subset=['arrival_delay', 'departure_delay'], how='all')\<close>.\<close>

definition dropna_all :: "delay_row list \<Rightarrow> delay_row list" where
  "dropna_all xs =
     filter (\<lambda>row. \<not> (arrival_delay row = None \<and> departure_delay row = None)) xs"

text \<open>
  \<^verbatim>\<open>f.sort_values(cols)\<close> on several columns is a stable sort (Pandas sorts by a
  lexsort indexer); \<open>sort_key\<close> is insertion sort, stable as well.
\<close>

definition sort_values_cols :: "delay_row list \<Rightarrow> delay_row list" where
  "sort_values_cols xs = sort_key cols xs"

text \<open>
  The body of the branch for a duplicate route-trip-stop row (lines 163--166):
  \<open>kept\<close> is \<^verbatim>\<open>new_rows[-1]\<close>; each delay column that is null in \<open>kept\<close> and not null
  in \<open>row\<close> is copied over.
\<close>

definition backfill_col ::
  "(delay_row \<Rightarrow> real option) \<Rightarrow> (real option \<Rightarrow> delay_row \<Rightarrow> delay_row) \<Rightarrow>
   delay_row \<Rightarrow> delay_row \<Rightarrow> delay_row" where
  "backfill_col dcol set_dcol row kept =
     (if dcol row \<noteq> None \<and> dcol kept = None then set_dcol (dcol row) kept else kept)"

definition backfill :: "delay_row \<Rightarrow> delay_row \<Rightarrow> delay_row" where
  "backfill kept row =
     (if arrival_delay kept = None \<or> departure_delay kept = None
      then backfill_col departure_delay (\<lambda>v r. r\<lparr>departure_delay := v\<rparr>) row
             (backfill_col arrival_delay (\<lambda>v r. r\<lparr>arrival_delay := v\<rparr>) row kept)
      else kept)"

text \<open>
  The loop over \<^verbatim>\<open>f.iterrows()\<close> (lines 152--169), with its state
  \<^verbatim>\<open>(prev_tup, new_rows)\<close>. \<^verbatim>\<open>np.array_equal(tup, None)\<close> is false, so the first row
  is appended. Whenever \<open>prev_tup\<close> is set, \<open>new_rows\<close> is not empty.
\<close>

fun merge_loop ::
  "(string \<times> string \<times> int) option \<Rightarrow> delay_row list \<Rightarrow> delay_row list \<Rightarrow> delay_row list" where
  "merge_loop prev_tup new_rows [] = new_rows"
| "merge_loop prev_tup new_rows (row # rest) =
     (if Some (cols row) = prev_tup
      then merge_loop prev_tup (butlast new_rows @ [backfill (last new_rows) row]) rest
      else merge_loop (Some (cols row)) (new_rows @ [row]) rest)"

text \<open>The columns of a delay frame, in the order \<^verbatim>\<open>extract_delays\<close> gives them.\<close>

definition delay_columns :: "string list" where
  "delay_columns =
     [''route_id'', ''trip_id'', ''stop_sequence'', ''stop_id'',
      ''arrival_delay'', ''departure_delay'']"

text \<open>
  \<^verbatim>\<open>combine_delays\<close> (lines 143--171). The frame built from \<open>new_rows\<close> takes its columns
  from the rows, so it has none when \<open>new_rows\<close> is empty.
\<close>

definition combine_delays :: "delay_row list list \<Rightarrow> py_error + delay_row frame" where
  "combine_delays delays_list =
     (case pd_concat delays_list of
        Inl e \<Rightarrow> Inl e
      | Inr f \<Rightarrow>
          (let new_rows = merge_loop None [] (sort_values_cols (dropna_all (drop_duplicates f)))
           in Inr (Frame (if new_rows = [] then [] else delay_columns) new_rows)))"

text \<open>
  The first value that is present in a list of cells: what ``first-wins backfill'' means for
  one delay column of a group of rows with the same key (the specification's words, used
  to state the merge policy).
\<close>

fun first_present :: "'a option list \<Rightarrow> 'a option" where
  "first_present [] = None"
| "first_present (Some v # xs) = Some v"
| "first_present (None # xs) = first_present xs"

text \<open>A row that survives \<open>dropna_all\<close>: one of its two delays is present.\<close>

definition has_delay :: "delay_row \<Rightarrow> bool" where
  "has_delay row = (\<not> (arrival_delay row = None \<and> departure_delay row = None))"

text \<open>
  The loop, read group by group: the first row of a run of equal keys is kept and the rest
  of the run is folded into it. \<open>merge_loop_groups\<close> below proves that the loop computes
  this.
\<close>

function merge_groups :: "delay_row list \<Rightarrow> delay_row list" where
  "merge_groups [] = []"
| "merge_groups (a # xs) =
     foldl backfill a (takeWhile (\<lambda>r. cols r = cols a) xs)
       # merge_groups (dropWhile (\<lambda>r. cols r = cols a) xs)"
  by pat_completeness auto
termination
  by (relation "measure length") (auto simp: length_dropWhile_le less_Suc_eq_le)

section \<open>build\_augmented\_stop\_times\<close>

text \<open>
  A row of \<^verbatim>\<open>st = gt.get_stop_times(gtfs_feed, date)\<close>, with the columns the program
  reads. \<^verbatim>\<open>interpolate_delays\<close> is documented for ``an accurate
  \<^verbatim>\<open>shape_dist_traveled\<close> column'', so every row carries a distance.
\<close>

record stop_time =
  st_trip_id :: string
  st_stop_id :: string
  st_stop_sequence :: int
  st_departure_time :: string
  st_shape_dist_traveled :: real

text \<open>
  A row of \<^verbatim>\<open>ast\<close>, the augmented stop times: the columns of \<open>st\<close>, the two delay columns
  of the join, and the \<^verbatim>\<open>delay\<close> column that \<^verbatim>\<open>append_delay_col\<close> writes (all null
  before that).
\<close>

record ast_row = stop_time +
  ast_arrival_delay :: "real option"
  ast_departure_delay :: "real option"
  delay :: "real option"

subsection \<open>Clock strings\<close>

text \<open>\<^verbatim>\<open>str(n)\<close> and \<^verbatim>\<open>int(s)\<close> for a natural number and a string of decimal digits.\<close>

definition digit_char :: "nat \<Rightarrow> char" where
  "digit_char d = ''0123456789'' ! d"

function str_nat :: "nat \<Rightarrow> string" where
  "str_nat n = (if n < 10 then [digit_char n] else str_nat (n div 10) @ [digit_char (n mod 10)])"
  by pat_completeness auto
termination
  by (relation "measure id") auto

definition is_digit :: "char \<Rightarrow> bool" where
  "is_digit c = (c \<in> set ''0123456789'')"

definition digit_value :: "char \<Rightarrow> nat" where
  "digit_value c = length (takeWhile (\<lambda>d. d \<noteq> c) ''0123456789'')"

definition digits_value :: "string \<Rightarrow> nat" where
  "digits_value s = foldl (\<lambda>acc c. 10 * acc + digit_value c) 0 s"

definition int_of_digits :: "string \<Rightarrow> nat option" where
  "int_of_digits s = (if s \<noteq> [] \<and> list_all is_digit s then Some (digits_value s) else None)"

text \<open>\<^verbatim>\<open>'{:02d}'.format(n)\<close>.\<close>

definition fmt_02d :: "nat \<Rightarrow> string" where
  "fmt_02d n = (if n < 10 then CHR ''0'' # str_nat n else str_nat n)"

text \<open>\<^verbatim>\<open>x.split(':')\<close>.\<close>

fun split_colon :: "string \<Rightarrow> string list" where
  "split_colon [] = [[]]"
| "split_colon (c # cs) =
     (if c = CHR '':'' then [] # split_colon cs
      else (case split_colon cs of [] \<Rightarrow> [[c]] | w # ws \<Rightarrow> (c # w) # ws))"

text \<open>
  The two functions of the schedule library \<^verbatim>\<open>gtfstk\<close> that the window computation
  calls, by their documented behaviour. \<^verbatim>\<open>timestr_to_seconds(x)\<close> reads an
  \<^verbatim>\<open>HH:MM:SS\<close> string as seconds past midnight and gives NaN (\<open>None\<close>) for anything else;
  with \<^verbatim>\<open>inverse=True\<close> it writes seconds as \<^verbatim>\<open>HH:MM:SS\<close>, hours not reduced.
  \<^verbatim>\<open>timestr_mod24\<close> reduces the hours of a time string modulo 24. The fields are read
  as plain digit strings.
\<close>

definition timestr_to_seconds :: "string \<Rightarrow> nat option" where
  "timestr_to_seconds x =
     (case map int_of_digits (split_colon x) of
        [Some hours, Some mins, Some seconds] \<Rightarrow> Some (hours * 3600 + mins * 60 + seconds)
      | _ \<Rightarrow> None)"

definition timestr_of_seconds :: "nat \<Rightarrow> string" where
  "timestr_of_seconds seconds =
     (let hours = seconds div 3600; remainder = seconds mod 3600;
          mins = remainder div 60; secs = remainder mod 60
      in fmt_02d hours @ '':'' @ fmt_02d mins @ '':'' @ fmt_02d secs)"

definition timestr_mod24 :: "string \<Rightarrow> string option" where
  "timestr_mod24 timestr =
     (case map int_of_digits (split_colon timestr) of
        [Some hours, Some mins, Some secs] \<Rightarrow>
          Some (fmt_02d (hours mod 24) @ '':'' @ fmt_02d mins @ '':'' @ fmt_02d secs)
      | _ \<Rightarrow> None)"

text \<open>\<^verbatim>\<open>st['departure_time'].max()\<close>: the greatest string, NaN for an empty column.\<close>

definition max_departure_time :: "stop_time list \<Rightarrow> string option" where
  "max_departure_time st =
     (case st of [] \<Rightarrow> None
      | r # rs \<Rightarrow> Some (foldl max (st_departure_time r) (map st_departure_time rs)))"

subsection \<open>The admission window (lines 205--215)\<close>

text \<open>
  \<^verbatim>\<open>end_date\<close>: \<^verbatim>\<open>str(int(date) + 1)\<close> when the padded end time reaches 24:00:00, and
  \<open>date\<close> otherwise. \<^verbatim>\<open>int(date)\<close> raises \<^verbatim>\<open>ValueError\<close> on a string that is not a
  number.
\<close>

definition end_date :: "string \<Rightarrow> nat \<Rightarrow> py_error + string" where
  "end_date date end_time =
     (if end_time \<ge> 24 * 3600
      then (case int_of_digits date of
              None \<Rightarrow> Inl (ValueError ''invalid literal for int()'')
            | Some d \<Rightarrow> Inr (str_nat (d + 1)))
      else Inr date)"

text \<open>
  \<^verbatim>\<open>end_datetime\<close>. When the greatest departure time is NaN or not a time string,
  \<^verbatim>\<open>end_time\<close> stays NaN through the arithmetic, both library calls give a null, and
  \<^verbatim>\<open>end_time.replace\<close> raises \<^verbatim>\<open>AttributeError\<close>.
\<close>

definition end_datetime :: "stop_time list \<Rightarrow> string \<Rightarrow> py_error + string" where
  "end_datetime st date =
     (case Option.bind (max_departure_time st) timestr_to_seconds of
        None \<Rightarrow> Inl AttributeError
      | Some secs \<Rightarrow>
          (let end_time = secs + 20 * 60 in
           case end_date date end_time of
             Inl e \<Rightarrow> Inl e
           | Inr ed \<Rightarrow>
               (case timestr_mod24 (timestr_of_seconds end_time) of
                  None \<Rightarrow> Inl AttributeError
                | Some t \<Rightarrow> Inr (ed @ filter (\<lambda>c. c \<noteq> CHR '':'') t))))"

definition start_datetime :: "string \<Rightarrow> string" where
  "start_datetime date = date @ ''000000''"

subsection \<open>The join (lines 229--236)\<close>

text \<open>\<^verbatim>\<open>del delays['route_id']\<close>: \<^verbatim>\<open>KeyError\<close> when the frame has no such column.\<close>

definition del_column :: "string \<Rightarrow> 'r frame \<Rightarrow> py_error + 'r frame" where
  "del_column c f =
     (if c \<in> set (columns f) then Inr (Frame (removeAll c (columns f)) (rows f))
      else Inl (KeyError c))"

text \<open>
  \<^verbatim>\<open>st.merge(delays, how='left', on=['trip_id', 'stop_id', 'stop_sequence'])\<close>: the rows
  of \<open>st\<close> in order; a row with matches in \<open>delays\<close> appears once for each match, in the
  order of \<open>delays\<close>, and a row with none appears once with null delays. A key column
  missing from \<open>delays\<close> is a \<^verbatim>\<open>KeyError\<close>.
\<close>

definition join_key_matches :: "stop_time \<Rightarrow> delay_row \<Rightarrow> bool" where
  "join_key_matches s d =
     (trip_id d = st_trip_id s \<and> stop_id d = st_stop_id s \<and> stop_sequence d = st_stop_sequence s)"

definition augment :: "stop_time \<Rightarrow> real option \<Rightarrow> real option \<Rightarrow> ast_row" where
  "augment s a d =
     stop_time.extend s \<lparr>ast_arrival_delay = a, ast_departure_delay = d, delay = None\<rparr>"

definition merge_row :: "delay_row list \<Rightarrow> stop_time \<Rightarrow> ast_row list" where
  "merge_row delays s =
     (case filter (join_key_matches s) delays of
        [] \<Rightarrow> [augment s None None]
      | ms \<Rightarrow> map (\<lambda>d. augment s (arrival_delay d) (departure_delay d)) ms)"

definition merge_left :: "stop_time list \<Rightarrow> delay_row frame \<Rightarrow> py_error + ast_row list" where
  "merge_left st delays =
     (case filter (\<lambda>c. c \<notin> set (columns delays)) [''trip_id'', ''stop_id'', ''stop_sequence''] of
        [] \<Rightarrow> Inr (concat (map (merge_row (rows delays)) st))
      | c # _ \<Rightarrow> Inl (KeyError c))"

text \<open>
  \<^verbatim>\<open>build_augmented_stop_times\<close>. \<open>path_exists\<close> is \<^verbatim>\<open>gtfsr_path.exists()\<close>; \<open>st\<close> is the
  schedule of the date; \<open>files\<close> is the directory listing, each file given by the
  canonical \<^verbatim>\<open>YYYYMMDDHHMMSS\<close> string of its name (computed by the utilities module) and
  the frame \<^verbatim>\<open>extract_delays\<close> returns for its content. Strings are compared as Python
  compares them.
\<close>

definition admitted :: "stop_time list \<Rightarrow> string \<Rightarrow> string \<Rightarrow> (string \<times> 'f) list \<Rightarrow> 'f list" where
  "admitted st date end_dt files =
     map snd (filter (\<lambda>(datetime, f). start_datetime date \<le> datetime \<and> datetime \<le> end_dt) files)"

definition build_augmented_stop_times ::
  "bool \<Rightarrow> stop_time list \<Rightarrow> string \<Rightarrow> (string \<times> delay_row list) list \<Rightarrow> py_error + ast_row list" where
  "build_augmented_stop_times path_exists st date files =
     (if \<not> path_exists then Inl (ValueError ''The GTFSr path does not exist'')
      else case end_datetime st date of
        Inl e \<Rightarrow> Inl e
      | Inr end_dt \<Rightarrow>
          (case combine_delays (admitted st date end_dt files) of
             Inl e \<Rightarrow> Inl e
           | Inr delays \<Rightarrow>
               (case del_column ''route_id'' delays of
                  Inl e \<Rightarrow> Inl e
                | Inr delays' \<Rightarrow>
                    (case merge_left st delays' of
                       Inl e \<Rightarrow> Inl e
                     | Inr ast \<Rightarrow>
                         Inr (sort_key (\<lambda>r. (st_trip_id r, st_stop_sequence r)) ast)))))"

section \<open>clean\_augmented\_stop\_times\<close>

text \<open>
  \<^verbatim>\<open>f.groupby(key).apply(func)\<close> for a \<open>func\<close> that changes cells of its group and returns
  it: Pandas hands \<open>func\<close> each group (the rows of one key, in frame order) and puts the
  returned rows back in the places of the frame they came from. Row \<open>i\<close> of the result
  is therefore the row of \<open>func\<close>'s result for the group of row \<open>i\<close>, at the position row
  \<open>i\<close> has in its group (the number of earlier rows with its key).
\<close>

definition groupby_apply :: "('r \<Rightarrow> 'k) \<Rightarrow> ('r list \<Rightarrow> 'r list) \<Rightarrow> 'r list \<Rightarrow> 'r list" where
  "groupby_apply key func f =
     map (\<lambda>i. let grp = filter (\<lambda>r. key r = key (f ! i)) f;
                  pos = length (filter (\<lambda>r. key r = key (f ! i)) (take i f))
              in func grp ! pos)
       [0..<length f]"

subsection \<open>append\_delay\_col (lines 285--299)\<close>

text \<open>\<^verbatim>\<open>last_delay\<close>: \<^verbatim>\<open>group['delay'].iat[-1] = group['arrival_delay'].iat[-1]\<close>.\<close>

definition last_delay :: "ast_row list \<Rightarrow> ast_row list" where
  "last_delay grp =
     grp[length grp - 1 :=
       (grp ! (length grp - 1))\<lparr>delay := ast_arrival_delay (grp ! (length grp - 1))\<rparr>]"

text \<open>
  \<^verbatim>\<open>cond = abs(f['delay']) >= delay_cutoff\<close>, false on a null, and
  \<^verbatim>\<open>f.loc[cond, 'delay'] = np.nan\<close>, for one cell.
\<close>

definition nullify_fishy :: "real \<Rightarrow> real option \<Rightarrow> real option" where
  "nullify_fishy delay_cutoff d =
     (case d of None \<Rightarrow> None | Some v \<Rightarrow> if \<bar>v\<bar> \<ge> delay_cutoff then None else Some v)"

definition append_delay_col :: "real \<Rightarrow> ast_row list \<Rightarrow> ast_row list" where
  "append_delay_col delay_cutoff f =
     map (\<lambda>r. r\<lparr>delay := nullify_fishy delay_cutoff (delay r)\<rparr>)
       (groupby_apply st_trip_id last_delay (map (\<lambda>r. r\<lparr>delay := ast_departure_delay r\<rparr>) f))"

subsection \<open>interpolate\_delays (lines 321--358)\<close>

text \<open>
  \<^verbatim>\<open>np.interp(x, xp, fp)\<close> at one point \<open>x\<close>, as NumPy computes it for increasing \<open>xp\<close>:
  \<open>fp\<close>'s last value right of the sample points and its first value left of them;
  otherwise, with \<open>j\<close> the last index such that \<open>xp[j] \<le> x\<close> (NumPy finds it by binary
  search), \<open>fp[j]\<close> at the last sample point and
  \<^verbatim>\<open>slope*(x - xp[j]) + fp[j]\<close> between two. For \<open>xp\<close> that is not increasing NumPy
  documents no result, and this function says nothing about it.
\<close>

definition np_interp :: "real \<Rightarrow> real list \<Rightarrow> real list \<Rightarrow> real" where
  "np_interp x xp fp =
     (if x > last xp then last fp
      else if x < hd xp then hd fp
      else
        (let j = length (takeWhile (\<lambda>v. v \<le> x) xp) - 1 in
         if j = length xp - 1 then fp ! j
         else (fp ! (j + 1) - fp ! j) / (xp ! (j + 1) - xp ! j) * (x - xp ! j) + fp ! j))"

text \<open>
  \<^verbatim>\<open>Series.round(decimals)\<close>: NumPy rounds to the nearest multiple of
  \<open>10\<^sup>-\<^sup>d\<^sup>e\<^sup>c\<^sup>i\<^sup>m\<^sup>a\<^sup>l\<^sup>s\<close>, a tie to the even one.
\<close>

definition round_half_even :: "real \<Rightarrow> int" where
  "round_half_even x =
     (let n = \<lfloor>x\<rfloor>; d = x - of_int n in
      if d < 1 / 2 then n else if d > 1 / 2 then n + 1 else if even n then n else n + 1)"

definition np_round :: "int \<Rightarrow> real \<Rightarrow> real" where
  "np_round decimals x =
     (if decimals \<ge> 0
      then of_int (round_half_even (x * 10 ^ nat decimals)) / 10 ^ nat decimals
      else of_int (round_half_even (x / 10 ^ nat (- decimals))) * 10 ^ nat (- decimals))"

text \<open>
  \<^verbatim>\<open>group[delay_col].dropna().index\<close>, as positions in the group: the rows whose delay
  is not null.
\<close>

definition dropna_index :: "ast_row list \<Rightarrow> nat list" where
  "dropna_index grp = filter (\<lambda>k. delay (grp ! k) \<noteq> None) [0..<length grp]"

text \<open>
  One round of the loop \<^verbatim>\<open>for i in [0, -1]\<close> (lines 335--342): \<open>at_end\<close> is false for
  \<open>i = 0\<close> and true for \<open>i = -1\<close>. It runs only on a group with a delay that is not
  null, so \<open>j\<close> exists.
\<close>

definition set_end_delay :: "real \<Rightarrow> bool \<Rightarrow> ast_row list \<Rightarrow> ast_row list" where
  "set_end_delay dist_threshold at_end grp =
     (let i = (if at_end then length grp - 1 else 0);
          j = (if at_end then last (dropna_index grp) else hd (dropna_index grp));
          dist_diff = \<bar>st_shape_dist_traveled (grp ! i) - st_shape_dist_traveled (grp ! j)\<bar>
      in grp[i := (grp ! i)\<lparr>delay :=
                      (if dist_diff > dist_threshold then Some 0 else delay (grp ! j))\<rparr>])"

text \<open>\<^verbatim>\<open>fill\<close> (lines 329--350); \<^verbatim>\<open>group[delay_col].count() == 0\<close> is \<open>dropna_index grp = []\<close>.\<close>

definition fill :: "real \<Rightarrow> ast_row list \<Rightarrow> ast_row list" where
  "fill dist_threshold grp =
     (if dropna_index grp = [] then grp
      else
        (let g = set_end_delay dist_threshold True (set_end_delay dist_threshold False grp);
             known = filter (\<lambda>r. delay r \<noteq> None) g
         in map (\<lambda>r. r\<lparr>delay :=
                        Some (np_interp (st_shape_dist_traveled r)
                                (map st_shape_dist_traveled known)
                                (map (\<lambda>k. the (delay k)) known))\<rparr>) g))"

text \<open>
  \<^verbatim>\<open>interpolate_delays\<close>, called with \<^verbatim>\<open>delay_col='delay'\<close>. The frame is returned as it
  is when no delay is null (line 326), before any rounding.
\<close>

definition interpolate_delays :: "real \<Rightarrow> int option \<Rightarrow> ast_row list \<Rightarrow> ast_row list" where
  "interpolate_delays dist_threshold num_decimals f =
     (if list_all (\<lambda>r. delay r \<noteq> None) f then f
      else
        (let f' = groupby_apply st_trip_id (fill dist_threshold) f in
         case num_decimals of
           None \<Rightarrow> f'
         | Some n \<Rightarrow> map (\<lambda>r. r\<lparr>delay := map_option (np_round n) (delay r)\<rparr>) f'))"





text \<open>
  The delay the first stop is pinned to: with \<open>j\<close> the first stop of the group whose delay is
  not null, 0 when the distance between the first stop and stop \<open>j\<close> exceeds the
  threshold, and the delay of stop \<open>j\<close> otherwise. For the last stop, the same with the
  last stop whose delay is not null.
\<close>

definition pinned_first :: "real \<Rightarrow> ast_row list \<Rightarrow> real" where
  "pinned_first dist_threshold grp =
     (let j = hd (dropna_index grp) in
      if \<bar>st_shape_dist_traveled (grp ! 0) - st_shape_dist_traveled (grp ! j)\<bar> > dist_threshold
      then 0 else the (delay (grp ! j)))"

definition pinned_last :: "real \<Rightarrow> ast_row list \<Rightarrow> real" where
  "pinned_last dist_threshold grp =
     (let j = last (dropna_index grp) in
      if \<bar>st_shape_dist_traveled (grp ! (length grp - 1)) - st_shape_dist_traveled (grp ! j)\<bar>
           > dist_threshold
      then 0 else the (delay (grp ! j)))"

text \<open>The group with its two boundary delays pinned, and every other row as it was.\<close>

definition pinned :: "real \<Rightarrow> ast_row list \<Rightarrow> ast_row list" where
  "pinned dist_threshold grp =
     map (\<lambda>k. if k = length grp - 1
               then (grp ! k)\<lparr>delay := Some (pinned_last dist_threshold grp)\<rparr>
               else if k = 0
               then (grp ! k)\<lparr>delay := Some (pinned_first dist_threshold grp)\<rparr>
               else grp ! k)
       [0..<length grp]"


text \<open>A row without its delay: what the two cleaning steps leave alone.\<close>

definition no_delay :: "ast_row \<Rightarrow> ast_row" where
  "no_delay r = r\<lparr>delay := None\<rparr>"

section \<open>extract\_delays\<close>

text \<open>
  A decoded JSON value. A dictionary is the list of its items (keys distinct); numbers are
  integers, as the feed's fields are.
\<close>

datatype json =
  JNull | JBool bool | JNum int | JStr string | JList "json list" | JDict "(string \<times> json) list"

text \<open>Sequencing: the first exception ends the computation.\<close>

definition bind_err :: "'e + 'a \<Rightarrow> ('a \<Rightarrow> 'e + 'b) \<Rightarrow> 'e + 'b" where
  "bind_err x f = (case x of Inl e \<Rightarrow> Inl e | Inr v \<Rightarrow> f v)"

text \<open>
  \<^verbatim>\<open>x[k]\<close> for a string \<open>k\<close>: \<^verbatim>\<open>KeyError\<close> on a dictionary without the key,
  \<^verbatim>\<open>TypeError\<close> on anything that is not a dictionary.
\<close>

fun getitem :: "json \<Rightarrow> string \<Rightarrow> py_error + json" where
  "getitem (JDict kvs) k = (case map_of kvs k of None \<Rightarrow> Inl (KeyError k) | Some v \<Rightarrow> Inr v)"
| "getitem _ k = Inl TypeError"

text \<open>
  \<^verbatim>\<open>k in x\<close>: a key of a dictionary, an element of a list, a substring of a string;
  \<^verbatim>\<open>TypeError\<close> on a value that is not iterable.
\<close>

fun is_substring :: "string \<Rightarrow> string \<Rightarrow> bool" where
  "is_substring k [] = (k = [])"
| "is_substring k (c # cs) = (take (length k) (c # cs) = k \<or> is_substring k cs)"

fun contains :: "string \<Rightarrow> json \<Rightarrow> py_error + bool" where
  "contains k (JDict kvs) = Inr (map_of kvs k \<noteq> None)"
| "contains k (JList xs) = Inr (JStr k \<in> set xs)"
| "contains k (JStr s) = Inr (is_substring k s)"
| "contains k _ = Inl TypeError"

text \<open>\<^verbatim>\<open>for e in x\<close>: the elements of a list, the keys of a dictionary, the characters of a string.\<close>

fun py_iter :: "json \<Rightarrow> py_error + json list" where
  "py_iter (JList xs) = Inr xs"
| "py_iter (JDict kvs) = Inr (map (\<lambda>kv. JStr (fst kv)) kvs)"
| "py_iter (JStr s) = Inr (map (\<lambda>c. JStr [c]) s)"
| "py_iter _ = Inl TypeError"

text \<open>The truth value of \<^verbatim>\<open>feed\<close> in \<^verbatim>\<open>if not feed\<close>.\<close>

fun truthy :: "json \<Rightarrow> bool" where
  "truthy JNull = False"
| "truthy (JBool b) = b"
| "truthy (JNum n) = (n \<noteq> 0)"
| "truthy (JStr s) = (s \<noteq> [])"
| "truthy (JList xs) = (xs \<noteq> [])"
| "truthy (JDict kvs) = (kvs \<noteq> [])"

text \<open>
  \<^verbatim>\<open>int(x)\<close>. A string is stripped of white space and read as an optional sign and
  decimal digits, single underscores allowed between digits; anything else is a
  \<^verbatim>\<open>ValueError\<close>. \<^verbatim>\<open>None\<close>, lists and dictionaries are a \<^verbatim>\<open>TypeError\<close>.
\<close>

fun split_on :: "char \<Rightarrow> string \<Rightarrow> string list" where
  "split_on sep [] = [[]]"
| "split_on sep (c # cs) =
     (if c = sep then [] # split_on sep cs
      else (case split_on sep cs of [] \<Rightarrow> [[c]] | w # ws \<Rightarrow> (c # w) # ws))"

definition is_space :: "char \<Rightarrow> bool" where
  "is_space c = (c \<in> set [CHR '' '', CHR 0x09, CHR 0x0A, CHR 0x0B, CHR 0x0C, CHR 0x0D])"

definition py_strip :: "string \<Rightarrow> string" where
  "py_strip s = rev (dropWhile is_space (rev (dropWhile is_space s)))"

definition int_literal :: "string \<Rightarrow> int option" where
  "int_literal s =
     (let t = py_strip s;
          neg = (t \<noteq> [] \<and> hd t = CHR ''-'');
          u = (if t \<noteq> [] \<and> (hd t = CHR ''-'' \<or> hd t = CHR ''+'') then tl t else t);
          parts = split_on CHR ''_'' u
      in if list_all (\<lambda>p. p \<noteq> [] \<and> list_all is_digit p) parts
         then Some ((if neg then - 1 else 1) * int (digits_value (concat parts)))
         else None)"

fun py_int :: "json \<Rightarrow> py_error + int" where
  "py_int (JNum n) = Inr n"
| "py_int (JBool b) = Inr (if b then 1 else 0)"
| "py_int (JStr s) =
     (case int_literal s of
        None \<Rightarrow> Inl (ValueError ''invalid literal for int()'')
      | Some n \<Rightarrow> Inr n)"
| "py_int _ = Inl TypeError"

text \<open>
  The tuple appended to \<^verbatim>\<open>rows\<close> (lines 121--122):
  \<^verbatim>\<open>(rid, tid, stop_sequence, stop_id, delay['arrival'], delay['departure'])\<close>. The
  identifiers and delays are whatever values the feed holds; \<^verbatim>\<open>np.nan\<close> is \<open>None\<close>. The
  fourth component is the value \<^verbatim>\<open>str\<close> is applied to (\<^verbatim>\<open>str\<close> never raises).
\<close>

type_synonym row_tuple = "json \<times> json \<times> int \<times> json \<times> json option \<times> json option"

text \<open>The loop over \<^verbatim>\<open>['arrival', 'departure']\<close> (lines 116--120), for one key.\<close>

definition delay_of :: "json \<Rightarrow> string \<Rightarrow> py_error + json option" where
  "delay_of stu key =
     bind_err (contains key stu) (\<lambda>present.
       if present
       then bind_err (bind_err (getitem stu key) (\<lambda>x. getitem x ''delay'')) (\<lambda>d. Inr (Some d))
       else Inr None)"

text \<open>
  The body of the loop over the entities (lines 107--122): an exception, \<open>None\<close> for an
  entity that is skipped, or the tuple to append.
\<close>

definition entity_row :: "json \<Rightarrow> py_error + row_tuple option" where
  "entity_row e =
     bind_err (contains ''trip_update'' e) (\<lambda>present.
       if \<not> present then Inr None
       else
         bind_err (getitem e ''trip_update'') (\<lambda>tu.
         bind_err (bind_err (getitem tu ''trip'') (\<lambda>trip. getitem trip ''route_id'')) (\<lambda>rid.
         bind_err (bind_err (getitem tu ''trip'') (\<lambda>trip. getitem trip ''trip_id'')) (\<lambda>tid.
         bind_err (getitem tu ''stop_time_update'') (\<lambda>stu.
         bind_err (bind_err (getitem stu ''stop_sequence'') py_int) (\<lambda>stop_sequence.
         bind_err (getitem stu ''stop_id'') (\<lambda>stop_id.
         bind_err (delay_of stu ''arrival'') (\<lambda>arrival.
         bind_err (delay_of stu ''departure'') (\<lambda>departure.
           Inr (Some (rid, tid, stop_sequence, stop_id, arrival, departure)))))))))))"

text \<open>
  The \<^verbatim>\<open>for\<close> loop inside \<^verbatim>\<open>try\<close>: it stops at the first exception, and \<open>rows\<close> keeps
  what was appended before.
\<close>

fun scan_entities :: "json list \<Rightarrow> row_tuple list \<Rightarrow> row_tuple list \<times> py_error option" where
  "scan_entities [] rws = (rws, None)"
| "scan_entities (e # es) rws =
     (case entity_row e of
        Inl err \<Rightarrow> (rws, Some err)
      | Inr None \<Rightarrow> scan_entities es rws
      | Inr (Some r) \<Rightarrow> scan_entities es (rws @ [r]))"

definition scan_feed :: "json \<Rightarrow> row_tuple list \<times> py_error option" where
  "scan_feed feed =
     (case bind_err (bind_err (getitem feed ''response'') (\<lambda>r. getitem r ''entity'')) py_iter of
        Inl err \<Rightarrow> ([], Some err)
      | Inr es \<Rightarrow> scan_entities es [])"

text \<open>\<^verbatim>\<open>except (TypeError, KeyError): pass\<close>.\<close>

fun caught :: "py_error \<Rightarrow> bool" where
  "caught TypeError = True"
| "caught (KeyError k) = True"
| "caught _ = False"

text \<open>
  \<^verbatim>\<open>get_timestamp\<close> (lines 78--84). \<open>timestamp_to_str\<close> stands for
  \<^verbatim>\<open>ut.timestamp_to_str(\<cdot>, timestamp_format)\<close> of the utilities module.
\<close>

definition get_timestamp :: "(json \<Rightarrow> py_error + string) \<Rightarrow> json \<Rightarrow> py_error + string option" where
  "get_timestamp timestamp_to_str feed =
     (if \<not> truthy feed then Inr None
      else bind_err
             (bind_err (bind_err (getitem feed ''response'') (\<lambda>r. getitem r ''header''))
                (\<lambda>h. getitem h ''timestamp''))
             (\<lambda>v. bind_err (timestamp_to_str v) (\<lambda>s. Inr (Some s))))"

text \<open>
  \<^verbatim>\<open>extract_delays\<close> (lines 103--131). The data frame is given by its rows in the order
  of the scan; the final \<^verbatim>\<open>sort_values\<close> and the new index reorder these rows and
  neither add nor drop one.
\<close>

definition extract_delays ::
  "(json \<Rightarrow> py_error + string) \<Rightarrow> json \<Rightarrow> py_error + (row_tuple list \<times> string option)" where
  "extract_delays timestamp_to_str feed =
     bind_err (get_timestamp timestamp_to_str feed) (\<lambda>t.
       case scan_feed feed of
         (rws, None) \<Rightarrow> Inr (rws, t)
       | (rws, Some err) \<Rightarrow> if caught err then Inr (rws, t) else Inl err)"

section \<open>collect\_feeds\<close>

text \<open>
  The state of a collection run: how often \<^verbatim>\<open>get_feed\<close> was called, the feeds written to
  files, and the number of \<^verbatim>\<open>time.sleep(frequency)\<close> calls. \<^verbatim>\<open>get_feed\<close> is given by its
  outcomes: \<open>get_feed k\<close> is the feed the call number \<open>k\<close> returns, or \<open>None\<close> when that
  call raises a \<^verbatim>\<open>RequestException\<close>.
\<close>

record 'f collector =
  calls :: nat
  written :: "'f list"
  sleeps :: nat

text \<open>
  The \<^verbatim>\<open>while not success and n <= num_tries\<close> loop (lines 58--70). In the \<^verbatim>\<open>except\<close>
  branch \<^verbatim>\<open>continue\<close> jumps to the loop test, past \<^verbatim>\<open>n += 1\<close>. A run of the loop that
  never ends has the value \<open>None\<close>.
\<close>

partial_function (option) retry_loop ::
  "(nat \<Rightarrow> 'f option) \<Rightarrow> nat \<Rightarrow> bool \<Rightarrow> nat \<Rightarrow> 'f collector \<Rightarrow> 'f collector option" where
  "retry_loop get_feed num_tries success n s =
     (if \<not> success \<and> n \<le> num_tries
      then (case get_feed (calls s) of
              None \<Rightarrow> retry_loop get_feed num_tries success n (s\<lparr>calls := calls s + 1\<rparr>)
            | Some feed \<Rightarrow>
                retry_loop get_feed num_tries True (n + 1)
                  (s\<lparr>calls := calls s + 1, written := written s @ [feed]\<rparr>))
      else Some s)"

text \<open>The \<^verbatim>\<open>for i in range(num_calls)\<close> loop: a retry loop, then a sleep.\<close>

fun collect_cycles ::
  "(nat \<Rightarrow> 'f option) \<Rightarrow> nat \<Rightarrow> nat \<Rightarrow> 'f collector \<Rightarrow> 'f collector option" where
  "collect_cycles get_feed num_tries 0 s = Some s"
| "collect_cycles get_feed num_tries (Suc k) s =
     (case retry_loop get_feed num_tries False 1 s of
        None \<Rightarrow> None
      | Some s' \<Rightarrow> collect_cycles get_feed num_tries k (s'\<lparr>sleeps := sleeps s' + 1\<rparr>))"

text \<open>\<^verbatim>\<open>collect_feeds\<close>; \<^verbatim>\<open>duration//frequency\<close> raises on a zero frequency.\<close>

definition collect_feeds ::
  "(nat \<Rightarrow> 'f option) \<Rightarrow> nat \<Rightarrow> nat \<Rightarrow> nat \<Rightarrow> (py_error + 'f collector) option" where
  "collect_feeds get_feed frequency duration num_tries =
     (if frequency = 0 then Some (Inl ZeroDivisionError)
      else map_option Inr
             (collect_cycles get_feed num_tries (duration div frequency)
                \<lparr>calls = 0, written = [], sleeps = 0\<rparr>))"

section \<open>Example inputs\<close>

text \<open>The two observations of the specification's backfill example (same key).\<close>

definition obs_A :: delay_row where
  "obs_A = \<lparr>route_id = ''R1'', trip_id = ''T1'', stop_sequence = 3, stop_id = ''S9'',
            arrival_delay = Some 5, departure_delay = None\<rparr>"

definition obs_B :: delay_row where
  "obs_B = \<lparr>route_id = ''R1'', trip_id = ''T1'', stop_sequence = 3, stop_id = ''S9'',
            arrival_delay = None, departure_delay = Some 7\<rparr>"

text \<open>
  Two observations of one scheduled stop that differ in \<^verbatim>\<open>route_id\<close> only, and a schedule
  with that one stop.
\<close>

definition obs_R1 :: delay_row where
  "obs_R1 = \<lparr>route_id = ''R1'', trip_id = ''T1'', stop_sequence = 3, stop_id = ''S9'',
             arrival_delay = Some 5, departure_delay = None\<rparr>"

definition obs_R2 :: delay_row where
  "obs_R2 = \<lparr>route_id = ''R2'', trip_id = ''T1'', stop_sequence = 3, stop_id = ''S9'',
             arrival_delay = Some 60, departure_delay = None\<rparr>"

definition sched_one :: "stop_time list" where
  "sched_one =
     [\<lparr>st_trip_id = ''T1'', st_stop_id = ''S9'', st_stop_sequence = 3,
       st_departure_time = ''08:00:00'', st_shape_dist_traveled = 0\<rparr>]"

text \<open>A schedule whose last departure is at 23:50:00.\<close>

definition sched_2350 :: "stop_time list" where
  "sched_2350 =
     [\<lparr>st_trip_id = ''T1'', st_stop_id = ''S9'', st_stop_sequence = 3,
       st_departure_time = ''23:50:00'', st_shape_dist_traveled = 0\<rparr>]"

text \<open>
  Entities of a feed: one that is well formed, one whose \<^verbatim>\<open>trip_update\<close> has no
  \<^verbatim>\<open>trip\<close>, one whose \<^verbatim>\<open>stop_sequence\<close> is not a number, and one without a
  \<^verbatim>\<open>trip_update\<close>; and a well-formed container around a list of entities.
\<close>

definition entity_ok :: json where
  "entity_ok = JDict [(''id'', JStr ''e1''),
     (''trip_update'', JDict [
        (''trip'', JDict [(''route_id'', JStr ''R1''), (''trip_id'', JStr ''T1'')]),
        (''stop_time_update'', JDict [(''stop_sequence'', JNum 3), (''stop_id'', JStr ''S9''),
             (''arrival'', JDict [(''delay'', JNum 5)])])])]"

definition entity_no_trip :: json where
  "entity_no_trip = JDict [(''id'', JStr ''e2''),
     (''trip_update'', JDict [
        (''stop_time_update'', JDict [(''stop_sequence'', JNum 4), (''stop_id'', JStr ''S10'')])])]"

definition entity_bad_sequence :: json where
  "entity_bad_sequence = JDict [(''id'', JStr ''e3''),
     (''trip_update'', JDict [
        (''trip'', JDict [(''route_id'', JStr ''R1''), (''trip_id'', JStr ''T1'')]),
        (''stop_time_update'', JDict [(''stop_sequence'', JStr ''abc''), (''stop_id'', JStr ''S9'')])])]"

definition feed_of :: "json list \<Rightarrow> json" where
  "feed_of es = JDict [(''response'', JDict [(''header'', JDict [(''timestamp'', JNum 1463641200)]),
                       (''entity'', JList es)])]"

definition entity_alert :: json where
  "entity_alert = JDict [(''id'', JStr ''e4''), (''alert'', JDict [])]"






section \<open>Properties of combine\_delays\<close>

lemmas combine_defs = combine_delays_def pd_concat_def drop_duplicates_def dropna_all_def
  sort_values_cols_def cols_def backfill_def backfill_col_def delay_columns_def

lemmas clock_defs = digit_char_def is_digit_def digit_value_def digits_value_def
  int_of_digits_def fmt_02d_def timestr_to_seconds_def timestr_of_seconds_def
  timestr_mod24_def max_departure_time_def end_date_def end_datetime_def start_datetime_def

lemmas build_defs = build_augmented_stop_times_def admitted_def del_column_def merge_left_def
  merge_row_def join_key_matches_def augment_def stop_time.extend_def

lemma cols_backfill [simp]: "cols (backfill kept row) = cols kept"
  by (simp add: backfill_def backfill_col_def cols_def)

lemma stop_id_backfill [simp]: "stop_id (backfill kept row) = stop_id kept"
  by (simp add: backfill_def backfill_col_def)

lemma arrival_backfill:
  "arrival_delay (backfill kept row) = first_present [arrival_delay kept, arrival_delay row]"
  by (cases "arrival_delay kept"; cases "arrival_delay row"; cases "departure_delay kept")
     (auto simp: backfill_def backfill_col_def)

lemma departure_backfill:
  "departure_delay (backfill kept row) =
     first_present [departure_delay kept, departure_delay row]"
  by (cases "arrival_delay kept"; cases "departure_delay row"; cases "departure_delay kept")
     (auto simp: backfill_def backfill_col_def)

lemma first_present_Cons:
  "first_present (x # xs) = (case x of Some v \<Rightarrow> Some v | None \<Rightarrow> first_present xs)"
  by (cases x) auto

lemma foldl_backfill_cols [simp]: "cols (foldl backfill a g) = cols a"
  by (induction g arbitrary: a) auto

lemma foldl_backfill_stop_id [simp]: "stop_id (foldl backfill a g) = stop_id a"
  by (induction g arbitrary: a) auto

lemma foldl_backfill_arrival:
  "arrival_delay (foldl backfill a g) = first_present (map arrival_delay (a # g))"
  by (induction g arbitrary: a)
     (auto simp: arrival_backfill first_present_Cons split: option.splits)

lemma foldl_backfill_departure:
  "departure_delay (foldl backfill a g) = first_present (map departure_delay (a # g))"
  by (induction g arbitrary: a)
     (auto simp: departure_backfill first_present_Cons split: option.splits)

text \<open>The loop with a kept row \<open>k\<close> at the end of \<open>new_rows\<close>.\<close>

lemma merge_loop_groups_aux:
  "cols k = kk \<Longrightarrow>
   merge_loop (Some kk) (acc @ [k]) xs =
     acc @ (foldl backfill k (takeWhile (\<lambda>r. cols r = kk) xs)
             # merge_groups (dropWhile (\<lambda>r. cols r = kk) xs))"
proof (induction xs arbitrary: k kk acc)
  case Nil
  then show ?case by simp
next
  case (Cons x xs)
  show ?case
  proof (cases "cols x = kk")
    case True
    with Cons.prems have "cols (backfill k x) = kk" by simp
    from Cons.IH[OF this, of acc] True show ?thesis by simp
  next
    case False
    have "merge_loop (Some kk) (acc @ [k]) (x # xs) =
            merge_loop (Some (cols x)) ((acc @ [k]) @ [x]) xs"
      using False by auto
    also have "\<dots> = (acc @ [k]) @ (foldl backfill x (takeWhile (\<lambda>r. cols r = cols x) xs)
             # merge_groups (dropWhile (\<lambda>r. cols r = cols x) xs))"
      by (rule Cons.IH) simp
    finally show ?thesis using False by simp
  qed
qed

lemma merge_loop_groups: "merge_loop None [] xs = merge_groups xs"
proof (cases xs)
  case Nil
  then show ?thesis by simp
next
  case (Cons x xs')
  have "merge_loop None [] (x # xs') = merge_loop (Some (cols x)) ([] @ [x]) xs'" by simp
  also have "\<dots> = [] @ (foldl backfill x (takeWhile (\<lambda>r. cols r = cols x) xs')
             # merge_groups (dropWhile (\<lambda>r. cols r = cols x) xs'))"
    by (rule merge_loop_groups_aux) simp
  finally show ?thesis using Cons by simp
qed

lemma has_delay_backfill: "has_delay kept \<Longrightarrow> has_delay (backfill kept row)"
  by (auto simp: has_delay_def backfill_def backfill_col_def)

lemma has_delay_foldl_backfill: "has_delay a \<Longrightarrow> has_delay (foldl backfill a g)"
  by (induction g arbitrary: a) (auto simp: has_delay_backfill)

lemma merge_groups_has_delay:
  "list_all has_delay xs \<Longrightarrow> list_all has_delay (merge_groups xs)"
proof (induction xs rule: merge_groups.induct)
  case 1
  then show ?case by simp
next
  case (2 a xs)
  have "list_all has_delay (dropWhile (\<lambda>r. cols r = cols a) xs)"
    using "2.prems" by (auto simp: list_all_iff dest: set_dropWhileD)
  with 2 show ?case by (simp add: has_delay_foldl_backfill)
qed

lemma merge_groups_cols_subset: "cols ` set (merge_groups xs) \<subseteq> cols ` set xs"
proof (induction xs rule: merge_groups.induct)
  case 1
  then show ?case by simp
next
  case (2 a xs)
  have "set (dropWhile (\<lambda>r. cols r = cols a) xs) \<subseteq> set xs"
    by (auto dest: set_dropWhileD)
  with 2 show ?case by auto
qed

text \<open>In a list sorted by key, the rows after the leading run have a greater key.\<close>

lemma sorted_dropWhile_greater:
  assumes "sorted (map cols (a # xs))" "r \<in> set (dropWhile (\<lambda>r. cols r = cols a) xs)"
  shows "cols a < cols r"
using assms proof (induction xs)
  case Nil
  then show ?case by simp
next
  case (Cons x xs)
  show ?case
  proof (cases "cols x = cols a")
    case True
    with Cons show ?thesis by auto
  next
    case False
    from Cons.prems(1) have le: "\<forall>y\<in>set (x # xs). cols x \<le> cols y" "cols a \<le> cols x"
      by auto
    from False Cons.prems(2) have "r \<in> set (x # xs)" by simp
    with le have "cols a \<le> cols x" "cols x \<le> cols r" by auto
    with False show ?thesis by auto
  qed
qed

lemma sorted_takeWhile_filter:
  assumes "sorted (map cols (a # xs))"
  shows "takeWhile (\<lambda>r. cols r = cols a) xs = filter (\<lambda>r. cols r = cols a) xs"
using assms proof (induction xs)
  case Nil
  then show ?case by simp
next
  case (Cons x xs)
  show ?case
  proof (cases "cols x = cols a")
    case True
    with Cons show ?thesis by auto
  next
    case False
    have "\<forall>y\<in>set xs. cols y \<noteq> cols a"
    proof
      fix y assume "y \<in> set xs"
      with Cons.prems have "cols a \<le> cols x" "cols x \<le> cols y" by auto
      with False show "cols y \<noteq> cols a" by auto
    qed
    then have "filter (\<lambda>r. cols r = cols a) xs = []" by (simp add: filter_empty_conv)
    with False show ?thesis by simp
  qed
qed

lemma sorted_cols_dropWhile:
  "sorted (map cols xs) \<Longrightarrow> sorted (map cols (dropWhile P xs))"
  by (induction xs) auto

lemma merge_groups_sorted:
  "sorted (map cols xs) \<Longrightarrow> sorted_wrt (<) (map cols (merge_groups xs))"
proof (induction xs rule: merge_groups.induct)
  case 1
  then show ?case by simp
next
  case (2 a xs)
  let ?d = "dropWhile (\<lambda>r. cols r = cols a) xs"
  from "2.prems" have "sorted (map cols xs)" by simp
  then have "sorted (map cols ?d)" by (rule sorted_cols_dropWhile)
  then have IH: "sorted_wrt (<) (map cols (merge_groups ?d))" by (rule "2.IH")
  have gt: "cols a < cols m" if "m \<in> set (merge_groups ?d)" for m
  proof -
    from that have "cols m \<in> cols ` set (merge_groups ?d)" by (rule imageI)
    then have "cols m \<in> cols ` set ?d" by (rule subsetD[OF merge_groups_cols_subset])
    then obtain r where "r \<in> set ?d" "cols m = cols r" by (rule imageE)
    with sorted_dropWhile_greater[OF "2.prems"] show ?thesis by simp
  qed
  have "map cols (merge_groups (a # xs)) = cols a # map cols (merge_groups ?d)" by simp
  moreover have "sorted_wrt (<) (cols a # map cols (merge_groups ?d))"
    using IH gt by simp
  ultimately show ?case by (simp only:)
qed

text \<open>Every merged row is the fold of the rows of its key, in their order.\<close>

lemma merge_groups_group:
  "sorted (map cols xs) \<Longrightarrow> m \<in> set (merge_groups xs) \<Longrightarrow>
   \<exists>a g. filter (\<lambda>r. cols r = cols m) xs = a # g \<and> m = foldl backfill a g"
proof (induction xs rule: merge_groups.induct)
  case 1
  then show ?case by simp
next
  case (2 a xs)
  let ?d = "dropWhile (\<lambda>r. cols r = cols a) xs"
  let ?t = "takeWhile (\<lambda>r. cols r = cols a) xs"
  from "2.prems"(1) have sx: "sorted (map cols xs)" by simp
  have tf: "?t = filter (\<lambda>r. cols r = cols a) xs"
    by (rule sorted_takeWhile_filter[OF "2.prems"(1)])
  from "2.prems"(2) consider "m = foldl backfill a ?t" | "m \<in> set (merge_groups ?d)" by auto
  then show ?case
  proof cases
    case 1
    then have "cols m = cols a" by simp
    with 1 tf show ?thesis by simp
  next
    case 2
    from sx have "sorted (map cols ?d)" by (rule sorted_cols_dropWhile)
    from "2.IH"[OF this 2] obtain b g where
      bg: "filter (\<lambda>r. cols r = cols m) ?d = b # g" "m = foldl backfill b g" by blast
    have "cols m \<in> cols ` set ?d" using merge_groups_cols_subset[of ?d] 2 by blast
    then obtain r where r: "r \<in> set ?d" "cols r = cols m" by auto
    from sorted_dropWhile_greater[OF "2.prems"(1) r(1)] r(2) have ne: "cols a \<noteq> cols m"
      by auto
    have "filter (\<lambda>r. cols r = cols m) ?t = []"
      using ne by (auto simp: filter_empty_conv dest: set_takeWhileD)
    then have "filter (\<lambda>r. cols r = cols m) xs = filter (\<lambda>r. cols r = cols m) ?d"
      using filter_append[of "\<lambda>r. cols r = cols m" ?t ?d] by simp
    with ne bg show ?thesis by auto
  qed
qed

lemma combine_delays_rows:
  "combine_delays delays_list = Inr f \<Longrightarrow>
   rows f = merge_groups (sort_key cols (dropna_all (drop_duplicates (concat delays_list))))"
  by (auto simp: combine_delays_def pd_concat_def sort_values_cols_def merge_loop_groups Let_def
           split: if_splits)

lemma dropna_all_has_delay: "list_all has_delay (dropna_all xs)"
  by (simp add: dropna_all_def has_delay_def list_all_iff)

lemma list_all_sort_key: "list_all P (sort_key k xs) = list_all P xs"
  by (simp add: list_all_iff)

lemma combine_AB:
  "combine_delays [[obs_A], [obs_B]] =
     Inr (Frame delay_columns [obs_A\<lparr>departure_delay := Some 7\<rparr>])"
  by (simp add: combine_defs obs_A_def obs_B_def)

text \<open>
  Claim C2. Whenever \<^verbatim>\<open>combine_delays\<close> returns a frame, no two of its rows have the same
  (route\_id, trip\_id, stop\_sequence), and no row has both delays absent. (On an empty
  list of frames \<^verbatim>\<open>pd.concat\<close> raises, and there is no output.)
\<close>

theorem combine_delays_unique_keys:
  assumes "combine_delays delays_list = Inr f"
  shows "distinct (map cols (rows f)) \<and>
         (\<forall>row \<in> set (rows f). \<not> (arrival_delay row = None \<and> departure_delay row = None))"
proof -
  let ?s = "sort_key cols (dropna_all (drop_duplicates (concat delays_list)))"
  have r: "rows f = merge_groups ?s" by (rule combine_delays_rows[OF assms])
  have "sorted (map cols ?s)" by simp
  then have "sorted_wrt (<) (map cols (merge_groups ?s))" by (rule merge_groups_sorted)
  then have d: "distinct (map cols (rows f))"
    unfolding r by (simp add: strict_sorted_iff)
  have "list_all has_delay ?s" by (simp add: list_all_sort_key dropna_all_has_delay)
  then have "list_all has_delay (rows f)" unfolding r by (rule merge_groups_has_delay)
  then have "\<forall>row \<in> set (rows f). \<not> (arrival_delay row = None \<and> departure_delay row = None)"
    by (simp add: list_all_iff has_delay_def)
  with d show ?thesis by simp
qed

theorem combine_delays_unique_keys_witness:
  "combine_delays [[obs_R1, obs_A], [obs_B, obs_R2]] =
     Inr (Frame delay_columns [obs_A\<lparr>departure_delay := Some 7\<rparr>, obs_R2])
   \<and> distinct (map cols [obs_A\<lparr>departure_delay := Some 7\<rparr>, obs_R2])
   \<and> has_delay (obs_A\<lparr>departure_delay := Some 7\<rparr>) \<and> has_delay obs_R2"
proof -
  have c: "combine_delays [[obs_R1, obs_A], [obs_B, obs_R2]] =
     Inr (Frame delay_columns [obs_A\<lparr>departure_delay := Some 7\<rparr>, obs_R2])"
    by (simp add: combine_defs obs_A_def obs_B_def obs_R1_def obs_R2_def)
  from combine_delays_unique_keys[OF c] c show ?thesis
    by (simp add: has_delay_def)
qed

text \<open>
  Claim C3. First-wins backfill: every row \<open>m\<close> of the output stands for the rows of its
  key that reached the merge (\<open>a\<close> first, then \<open>g\<close>, in the order in which the frames
  list them, which the stable sort keeps). It has the identifying columns of \<open>a\<close>, and
  each of its two delays is the first value present in that column of \<open>a # g\<close>: a value
  \<open>a\<close> has is kept, and a later row only fills a column that is still absent. The
  specification's example: A = (arrival 5, departure absent) before B = (arrival absent,
  departure 7) merges to (5, 7).
\<close>

theorem combine_delays_first_wins:
  "(\<forall>delays_list f m.
      combine_delays delays_list = Inr f \<and> m \<in> set (rows f) \<longrightarrow>
      (\<exists>a g. filter (\<lambda>r. cols r = cols m)
                (dropna_all (drop_duplicates (concat delays_list))) = a # g
           \<and> stop_id m = stop_id a
           \<and> arrival_delay m = first_present (map arrival_delay (a # g))
           \<and> departure_delay m = first_present (map departure_delay (a # g))))
   \<and> combine_delays [[obs_A], [obs_B]] =
       Inr (Frame delay_columns
             [\<lparr>route_id = ''R1'', trip_id = ''T1'', stop_sequence = 3, stop_id = ''S9'',
               arrival_delay = Some 5, departure_delay = Some 7\<rparr>])"
proof (intro conjI allI impI)
  fix delays_list f m
  assume asm: "combine_delays delays_list = Inr f \<and> m \<in> set (rows f)"
  let ?p = "dropna_all (drop_duplicates (concat delays_list))"
  let ?s = "sort_key cols ?p"
  have r: "rows f = merge_groups ?s" using asm by (simp add: combine_delays_rows)
  have "sorted (map cols ?s)" by simp
  moreover from asm r have "m \<in> set (merge_groups ?s)" by simp
  ultimately obtain a g where
    ag: "filter (\<lambda>r. cols r = cols m) ?s = a # g" "m = foldl backfill a g"
    using merge_groups_group by blast
  have "filter (\<lambda>r. cols r = cols m) ?s = filter (\<lambda>r. cols r = cols m) ?p"
    by (rule sort_key_stable)
  with ag(1) have "filter (\<lambda>r. cols r = cols m) ?p = a # g" by simp
  moreover have "stop_id m = stop_id a" using ag(2) by simp
  moreover have "arrival_delay m = first_present (map arrival_delay (a # g))"
    unfolding ag(2) by (rule foldl_backfill_arrival)
  moreover have "departure_delay m = first_present (map departure_delay (a # g))"
    unfolding ag(2) by (rule foldl_backfill_departure)
  ultimately show "\<exists>a g. filter (\<lambda>r. cols r = cols m) ?p = a # g
           \<and> stop_id m = stop_id a
           \<and> arrival_delay m = first_present (map arrival_delay (a # g))
           \<and> departure_delay m = first_present (map departure_delay (a # g))"
    by blast
next
  show "combine_delays [[obs_A], [obs_B]] =
       Inr (Frame delay_columns
             [\<lparr>route_id = ''R1'', trip_id = ''T1'', stop_sequence = 3, stop_id = ''S9'',
               arrival_delay = Some 5, departure_delay = Some 7\<rparr>])"
    by (simp add: combine_AB) (simp add: obs_A_def)
qed

theorem combine_delays_first_wins_witness:
  "combine_delays [[obs_A], [obs_B]] =
     Inr (Frame delay_columns [obs_A\<lparr>departure_delay := Some 7\<rparr>])
   \<and> (\<exists>a g. filter (\<lambda>r. cols r = cols (obs_A\<lparr>departure_delay := Some 7\<rparr>))
                (dropna_all (drop_duplicates (concat [[obs_A], [obs_B]]))) = a # g
           \<and> arrival_delay (obs_A\<lparr>departure_delay := Some 7\<rparr>) =
               first_present (map arrival_delay (a # g))
           \<and> departure_delay (obs_A\<lparr>departure_delay := Some 7\<rparr>) =
               first_present (map departure_delay (a # g)))"
proof -
  have m: "obs_A\<lparr>departure_delay := Some 7\<rparr>
             \<in> set (rows (Frame delay_columns [obs_A\<lparr>departure_delay := Some 7\<rparr>]))"
    by simp
  from combine_delays_first_wins combine_AB m
  have "\<exists>a g. filter (\<lambda>r. cols r = cols (obs_A\<lparr>departure_delay := Some 7\<rparr>))
                (dropna_all (drop_duplicates (concat [[obs_A], [obs_B]]))) = a # g
           \<and> stop_id (obs_A\<lparr>departure_delay := Some 7\<rparr>) = stop_id a
           \<and> arrival_delay (obs_A\<lparr>departure_delay := Some 7\<rparr>) =
               first_present (map arrival_delay (a # g))
           \<and> departure_delay (obs_A\<lparr>departure_delay := Some 7\<rparr>) =
               first_present (map departure_delay (a # g))"
    by blast
  with combine_AB show ?thesis by blast
qed

section \<open>Properties of build\_augmented\_stop\_times\<close>

text \<open>
  Claim C1, at an input where it fails. The schedule has one stop time; two admitted
  snapshots report that stop under two route ids. \<^verbatim>\<open>combine_delays\<close> keeps both rows
  (their merge keys differ), \<^verbatim>\<open>del delays['route_id']\<close> makes their join keys equal, and
  the left join gives the scheduled row twice.
\<close>

theorem build_augmented_stop_times_adds_rows:
  "length sched_one = 1 \<and>
   map_sum id length
     (build_augmented_stop_times True sched_one ''20160519''
        [(''20160519070000'', [obs_R1]), (''20160519070100'', [obs_R2])]) = Inr 2"
  by (simp add: build_defs combine_defs clock_defs sched_one_def obs_R1_def obs_R2_def)

text \<open>
  Claim C8, at an input where it fails. The directory exists and no snapshot is admitted:
  \<^verbatim>\<open>pd.concat([])\<close> raises \<^verbatim>\<open>ValueError\<close>, which nothing catches.
\<close>

theorem build_augmented_stop_times_no_snapshots:
  "build_augmented_stop_times True sched_one ''20160519'' [] =
     Inl (ValueError ''No objects to concatenate'')"
  by (simp add: build_defs combine_defs clock_defs sched_one_def)

text \<open>
  Claim C6, at an input where it fails. On 31 May 2016 with a last departure at 23:50:00
  the padded end time is 24:10:00; \<^verbatim>\<open>str(int(date) + 1)\<close> gives the end date 20160532,
  which is no calendar date, where the claim has 20160601.
\<close>

theorem end_datetime_month_boundary:
  "end_datetime sched_2350 ''20160531'' = Inr ''20160532001000''"
  by (simp add: clock_defs sched_2350_def)

section \<open>Properties of collect\_feeds\<close>

text \<open>A retry loop that returns has not met a get\_feed that fails on every call.\<close>

lemma retry_loop_never:
  "retry_loop get_feed num_tries success n s = Some r \<Longrightarrow>
   \<not> (\<not> success \<and> n \<le> num_tries \<and> (\<forall>k. get_feed k = None))"
proof (induction rule: retry_loop.raw_induct[rotated 1, consumes 1])
  case (1 retry get_feed num_tries success n s r)
  show ?case
  proof
    assume a: "\<not> success \<and> n \<le> num_tries \<and> (\<forall>k. get_feed k = None)"
    with "1.hyps" have "retry get_feed num_tries success n (s\<lparr>calls := calls s + 1\<rparr>) = Some r"
      by simp
    from "1.IH"[OF this] a show False by simp
  qed
qed

lemma retry_loop_all_fail:
  "n \<le> num_tries \<Longrightarrow> retry_loop (\<lambda>k. None) num_tries False n s = None"
  using retry_loop_never[of "\<lambda>k. None" num_tries False n s]
  by (cases "retry_loop (\<lambda>k. None) num_tries False n s") auto

text \<open>
  Claim C10, at an input where it fails. When every call of \<^verbatim>\<open>get_feed\<close> raises a
  \<^verbatim>\<open>RequestException\<close>, \<open>n\<close> stays 1 and the retry loop of the first cycle never ends, with
  \<^verbatim>\<open>num_tries = 3\<close>: neither the loop nor \<^verbatim>\<open>collect_feeds\<close> (here 60 seconds at one
  fetch every 30 seconds) returns.
\<close>

theorem collect_feeds_retries_forever:
  "retry_loop (\<lambda>k. None) 3 False 1 \<lparr>calls = 0, written = ([] :: unit list), sleeps = 0\<rparr> = None
   \<and> collect_feeds (\<lambda>k. None :: unit option) 30 60 3 = None"
proof -
  have "retry_loop (\<lambda>k. None) 3 False 1 s = None" for s :: "unit collector"
    by (rule retry_loop_all_fail) simp
  then show ?thesis
    by (simp add: collect_feeds_def numeral_2_eq_2 del: One_nat_def)
qed

section \<open>Properties of extract\_delays\<close>

lemmas json_defs = bind_err_def delay_of_def entity_row_def scan_feed_def get_timestamp_def
  extract_delays_def entity_ok_def entity_no_trip_def entity_bad_sequence_def entity_alert_def
  feed_of_def int_literal_def py_strip_def is_space_def is_digit_def digits_value_def
  digit_value_def









text \<open>
  A \<^verbatim>\<open>stop_sequence\<close> that is not a number raises \<^verbatim>\<open>ValueError\<close>, which the \<^verbatim>\<open>except\<close>
  clause does not name.
\<close>

lemma extract_delays_value_error:
  "extract_delays (\<lambda>v. Inr ''20160519070000'') (feed_of [entity_ok, entity_bad_sequence]) =
     Inl (ValueError ''invalid literal for int()'')"
  by (simp add: json_defs)

section \<open>Properties of the delay column\<close>


subsection \<open>groupby\_apply\<close>

lemma filter_nth_take:
  assumes "i < length f" "P (f ! i)"
  shows "filter P f ! length (filter P (take i f)) = f ! i"
    and "length (filter P f) =
           length (filter P (take i f)) + 1 + length (filter P (drop (Suc i) f))"
proof -
  have "f = take i f @ f ! i # drop (Suc i) f" using assms(1) by (rule id_take_nth_drop)
  then have "filter P f = filter P (take i f @ f ! i # drop (Suc i) f)" by simp
  then have e: "filter P f = filter P (take i f) @ f ! i # filter P (drop (Suc i) f)"
    using assms(2) by simp
  show "filter P f ! length (filter P (take i f)) = f ! i"
    by (subst e) (simp add: nth_append)
  show "length (filter P f) =
           length (filter P (take i f)) + 1 + length (filter P (drop (Suc i) f))"
    by (subst e) simp
qed


lemma length_groupby_apply [simp]: "length (groupby_apply key func f) = length f"
  by (simp add: groupby_apply_def)

lemma groupby_apply_nth:
  "i < length f \<Longrightarrow>
   groupby_apply key func f ! i =
     func (filter (\<lambda>r. key r = key (f ! i)) f)
       ! length (filter (\<lambda>r. key r = key (f ! i)) (take i f))"
  by (simp add: groupby_apply_def Let_def)

text \<open>A group function that only rewrites a column, seen through a projection \<open>E\<close> that forgets the column.\<close>

lemma groupby_apply_frame:
  assumes "\<And>g. map E (func g) = map E g"
  shows "map E (groupby_apply key func f) = map E f"
proof (rule nth_equalityI)
  show "length (map E (groupby_apply key func f)) = length (map E f)" by simp
next
  fix i assume "i < length (map E (groupby_apply key func f))"
  then have i: "i < length f" by simp
  let ?P = "\<lambda>r. key r = key (f ! i)"
  let ?g = "filter ?P f"
  let ?p = "length (filter ?P (take i f))"
  have p: "?p < length ?g" using filter_nth_take(2)[of i f ?P] i by simp
  have "length (func ?g) = length ?g" using assms[of ?g] by (metis length_map)
  with p have p': "?p < length (func ?g)" by simp
  have "map E (groupby_apply key func f) ! i = E (func ?g ! ?p)"
    using i by (simp add: groupby_apply_nth)
  also have "\<dots> = map E (func ?g) ! ?p" using p' by simp
  also have "\<dots> = map E ?g ! ?p" by (simp only: assms)
  also have "\<dots> = E (?g ! ?p)" using p by simp
  also have "\<dots> = E (f ! i)" using filter_nth_take(1)[of i f ?P] i by simp
  finally show "map E (groupby_apply key func f) ! i = map E f ! i" using i by simp
qed

subsection \<open>append\_delay\_col\<close>


lemma length_append_delay_col [simp]: "length (append_delay_col delay_cutoff f) = length f"
  by (simp add: append_delay_col_def)




subsection \<open>Idempotence\<close>

lemma no_delay_update [simp]: "no_delay (r\<lparr>delay := d\<rparr>) = no_delay r"
  by (simp add: no_delay_def)

lemma map_no_delay_list_update:
  "map no_delay (g[i := (g ! i)\<lparr>delay := d\<rparr>]) = map no_delay g"
proof (cases "i < length g")
  case True
  then show ?thesis by (simp add: map_update list_update_same_conv)
next
  case False
  then have "g[i := (g ! i)\<lparr>delay := d\<rparr>] = g" by (simp add: list_update_beyond)
  then show ?thesis by simp
qed

lemma last_delay_frame: "map no_delay (last_delay g) = map no_delay g"
  unfolding last_delay_def by (rule map_no_delay_list_update)

lemma set_end_delay_frame: "map no_delay (set_end_delay th e g) = map no_delay g"
  unfolding set_end_delay_def Let_def by (rule map_no_delay_list_update)

lemma fill_frame: "map no_delay (fill th g) = map no_delay g"
  by (simp add: fill_def Let_def set_end_delay_frame comp_def)

lemma interpolate_delays_frame:
  "map no_delay (interpolate_delays th nd f) = map no_delay f"
proof -
  have "map no_delay (groupby_apply st_trip_id (fill th) f) = map no_delay f"
    by (rule groupby_apply_frame) (rule fill_frame)
  then show ?thesis
    by (cases nd) (simp_all add: interpolate_delays_def Let_def comp_def)
qed

lemma append_delay_col_frame_only:
  assumes "map no_delay f = map no_delay f'"
  shows "append_delay_col c f = append_delay_col c f'"
proof -
  have u: "(\<lambda>r::ast_row. r\<lparr>delay := ast_departure_delay r\<rparr>)
             = (\<lambda>r. r\<lparr>delay := ast_departure_delay r\<rparr>) \<circ> no_delay"
    by (rule ext) (simp add: no_delay_def)
  have "map (\<lambda>r::ast_row. r\<lparr>delay := ast_departure_delay r\<rparr>) f
          = map (\<lambda>r. r\<lparr>delay := ast_departure_delay r\<rparr>) (map no_delay f)"
    by (subst u) simp
  also have "\<dots> = map (\<lambda>r. r\<lparr>delay := ast_departure_delay r\<rparr>) (map no_delay f')"
    by (simp only: assms)
  also have "\<dots> = map (\<lambda>r::ast_row. r\<lparr>delay := ast_departure_delay r\<rparr>) f'"
    by (subst (2) u) simp
  finally show ?thesis by (simp only: append_delay_col_def)
qed

lemma append_delay_col_frame: "map no_delay (append_delay_col c f) = map no_delay f"
proof -
  have "map no_delay (groupby_apply st_trip_id last_delay
           (map (\<lambda>r. r\<lparr>delay := ast_departure_delay r\<rparr>) f))
        = map no_delay (map (\<lambda>r. r\<lparr>delay := ast_departure_delay r\<rparr>) f)"
    by (rule groupby_apply_frame) (rule last_delay_frame)
  then show ?thesis by (simp add: append_delay_col_def comp_def)
qed

text \<open>
  Claim C9. Running \<^verbatim>\<open>append_delay_col\<close> and then \<^verbatim>\<open>interpolate_delays\<close> on the table
  these two steps have produced gives that table again, whatever its delays are (so also
  when none of them is null): \<^verbatim>\<open>append_delay_col\<close> rebuilds the delay column from the
  arrival and departure delays, which neither step changes.
\<close>

theorem clean_idempotent:
  "interpolate_delays dist_threshold num_decimals
     (append_delay_col delay_cutoff
        (interpolate_delays dist_threshold num_decimals (append_delay_col delay_cutoff f)))
   = interpolate_delays dist_threshold num_decimals (append_delay_col delay_cutoff f)"
proof -
  let ?out = "interpolate_delays dist_threshold num_decimals (append_delay_col delay_cutoff f)"
  have "map no_delay ?out = map no_delay f"
    by (simp add: interpolate_delays_frame append_delay_col_frame)
  then have "append_delay_col delay_cutoff ?out = append_delay_col delay_cutoff f"
    by (rule append_delay_col_frame_only)
  then show ?thesis by simp
qed

section \<open>Properties of interpolate\_delays\<close>

subsection \<open>np.interp and piecewise-linear interpolation\<close>








subsection \<open>First and last row with a delay\<close>


lemma filter_upt_Suc:
  "filter P [0..<Suc n] = filter P [0..<n] @ (if P n then [n] else [])"
  by simp





subsection \<open>The two rounds of pinning\<close>

lemma length_pinned [simp]: "length (pinned th grp) = length grp"
  by (simp add: pinned_def)






lemma pinned_dist [simp]:
  "map st_shape_dist_traveled (pinned th grp) = map st_shape_dist_traveled grp"
  by (rule nth_equalityI) (auto simp: pinned_def)


subsection \<open>fill, on one group\<close>








subsection \<open>interpolate\_delays, on the table\<close>



lemma update_delay_twice: "(r\<lparr>delay := a\<rparr>)\<lparr>delay := b\<rparr> = r\<lparr>delay := b\<rparr>"
  by simp










end
